theory Spec2Isabelle
  imports Complex_Main
begin

section \<open>Strings and whitespace normalisation\<close>

text \<open>
  A Python \<open>str\<close> is a sequence of Unicode code points; it is modelled as a list of
  natural numbers (the code points), so that \<open>"\xa0"\<close> is the one-element list \<open>[160]\<close>
  and the ASCII space is \<open>32\<close>.
\<close>

type_synonym ustr = "nat list"

text \<open>
  The characters for which Python's \<open>str.isspace\<close> holds; \<open>str.strip()\<close> and
  \<open>str.split()\<close> without arguments both use this set.
\<close>

definition isspace :: "nat \<Rightarrow> bool" where
  "isspace c \<longleftrightarrow>
     (9 \<le> c \<and> c \<le> 13) \<or> (28 \<le> c \<and> c \<le> 32) \<or> c = 133 \<or> c = 160 \<or> c = 5760 \<or>
     (8192 \<le> c \<and> c \<le> 8202) \<or> c = 8232 \<or> c = 8233 \<or> c = 8239 \<or> c = 8287 \<or> c = 12288"

text \<open>\<open>s.replace("\xa0", " ")\<close>: both strings have length one, so this is a map.\<close>

definition replace_nbsp :: "ustr \<Rightarrow> ustr" where
  "replace_nbsp s = map (\<lambda>c. if c = 160 then 32 else c) s"

definition lstrip :: "ustr \<Rightarrow> ustr" where
  "lstrip s = dropWhile isspace s"

definition rstrip :: "ustr \<Rightarrow> ustr" where
  "rstrip s = rev (dropWhile isspace (rev s))"

text \<open>\<open>s.strip()\<close>\<close>

definition strip :: "ustr \<Rightarrow> ustr" where
  "strip s = rstrip (lstrip s)"

text \<open>\<open>s.split()\<close>: the maximal runs of non-whitespace characters, in order.\<close>

function split_ws :: "ustr \<Rightarrow> ustr list" where
  "split_ws [] = []"
| "split_ws (c # cs) =
     (if isspace c then split_ws cs
      else (c # takeWhile (\<lambda>d. \<not> isspace d) cs) # split_ws (dropWhile (\<lambda>d. \<not> isspace d) cs))"
  by pat_completeness auto
termination
  by (relation "measure length") (auto simp: less_Suc_eq_le length_dropWhile_le)

text \<open>\<open>sep.join(ws)\<close>\<close>

fun join :: "ustr \<Rightarrow> ustr list \<Rightarrow> ustr" where
  "join sep [] = []"
| "join sep [w] = w"
| "join sep (w # v # ws) = w @ sep @ join sep (v # ws)"

text \<open>
  \<open>_norm\<close> (main.py, line 56):
  \<^verbatim>\<open>return " ".join((s or "").replace("\xa0", " ").strip().split())\<close>
  For a string \<open>s\<close>, \<open>s or ""\<close> is \<open>""\<close> when \<open>s\<close> is empty and \<open>s\<close> otherwise.
\<close>

definition norm_str :: "ustr \<Rightarrow> ustr" where
  "norm_str s = join [32] (split_ws (strip (replace_nbsp (if s = [] then [] else s))))"

text \<open>
  The normalisation rule in the words of the specification: every run of whitespace
  becomes one ASCII space (\<open>collapse_ws\<close>), after non-breaking spaces were replaced, and
  leading and trailing whitespace is trimmed.
\<close>

function collapse_ws :: "ustr \<Rightarrow> ustr" where
  "collapse_ws [] = []"
| "collapse_ws (c # cs) =
     (if isspace c then 32 # collapse_ws (dropWhile isspace cs) else c # collapse_ws cs)"
  by pat_completeness auto
termination
  by (relation "measure length") (auto simp: less_Suc_eq_le length_dropWhile_le)

definition spec_norm :: "ustr \<Rightarrow> ustr" where
  "spec_norm s = strip (collapse_ws (replace_nbsp s))"


section \<open>The row markup\<close>

text \<open>
  The parsed row is an XML tree. A node is an element (tag in Clark notation and child
  nodes in document order), a text node, or a comment or processing instruction
  (\<open>Misc\<close>). Iterating over an lxml element yields its element, comment and
  processing-instruction children; text is never a \<open>w:tc\<close> or a \<open>w:sdt\<close>, so keeping the
  text nodes among the children changes nothing in the loop below.
\<close>

datatype xnode = Element string "xnode list" | Text ustr | Misc

definition W_NS :: string where
  "W_NS = ''http://schemas.openxmlformats.org/wordprocessingml/2006/main''"

text \<open>\<open>f"{{{W_NS}}}tc"\<close> and its siblings.\<close>

definition w_tag :: "string \<Rightarrow> string" where
  "w_tag n = ''{'' @ W_NS @ ''}'' @ n"

fun node_tag :: "xnode \<Rightarrow> string option" where
  "node_tag (Element t kids) = Some t"
| "node_tag (Text s) = None"
| "node_tag Misc = None"

fun node_children :: "xnode \<Rightarrow> xnode list" where
  "node_children (Element t kids) = kids"
| "node_children (Text s) = []"
| "node_children Misc = []"

definition has_tag :: "string \<Rightarrow> xnode \<Rightarrow> bool" where
  "has_tag t n \<longleftrightarrow> node_tag n = Some t"

text \<open>\<open>child.xpath("./w:sdtContent/w:tc", namespaces=NS)\<close>, in document order.\<close>

definition xpath_sdtContent_tc :: "xnode \<Rightarrow> xnode list" where
  "xpath_sdtContent_tc n =
     concat (map (\<lambda>sc. filter (has_tag (w_tag ''tc'')) (node_children sc))
                 (filter (has_tag (w_tag ''sdtContent'')) (node_children n)))"

text \<open>The loop \<open>for child in tr\<close> of \<open>_tcs_from_row_xml\<close>, with its accumulator \<open>out\<close>.\<close>

fun tcs_loop :: "xnode list \<Rightarrow> xnode list \<Rightarrow> xnode list" where
  "tcs_loop [] out = out"
| "tcs_loop (child # rest) out =
     (if node_tag child = Some (w_tag ''tc'') then tcs_loop rest (out @ [child])
      else if node_tag child = Some (w_tag ''sdt'') then
        tcs_loop rest (out @ xpath_sdtContent_tc child)
      else tcs_loop rest out)"

text \<open>\<open>_tcs_from_row_xml\<close> (main.py, lines 64-80), on the parsed row element.\<close>

definition tcs_from_row_xml :: "xnode \<Rightarrow> xnode list" where
  "tcs_from_row_xml tr = tcs_loop (node_children tr) []"

text \<open>
  The text nodes below a node whose parent is a \<open>w:t\<close> element, in document order;
  \<open>in_t\<close> tells whether the node's parent is a \<open>w:t\<close>.
\<close>

fun texts_under :: "bool \<Rightarrow> xnode \<Rightarrow> ustr list" where
  "texts_under in_t (Text s) = (if in_t then [s] else [])"
| "texts_under in_t Misc = []"
| "texts_under in_t (Element t kids) = concat (map (texts_under (t = w_tag ''t'')) kids)"

text \<open>
  \<open>_text_from_tc\<close> (main.py, lines 82-85): \<open>"".join(tc.xpath(".//w:t/text()"))\<close>. The
  \<open>w:t\<close> elements selected are proper descendants of the cell.
\<close>

definition text_from_tc :: "xnode \<Rightarrow> ustr" where
  "text_from_tc tc = concat (concat (map (texts_under False) (node_children tc)))"

text \<open>
  The cell contribution of one row-level child node, in the words of the specification:
  a table cell counts itself, a content control counts the table cells that are direct
  children of its content body, anything else counts nothing.
\<close>

definition contributed_cells :: "xnode \<Rightarrow> xnode list" where
  "contributed_cells child =
     (case child of
        Element t kids \<Rightarrow>
          if t = w_tag ''tc'' then [child]
          else if t = w_tag ''sdt'' then
            [g. b \<leftarrow> kids, has_tag (w_tag ''sdtContent'') b,
                g \<leftarrow> node_children b, has_tag (w_tag ''tc'') g]
          else []
      | Text s \<Rightarrow> []
      | Misc \<Rightarrow> [])"


section \<open>Reading the rows\<close>

record RowData =
  name :: ustr
  greeting :: ustr
  dear :: ustr

datatype error =
    NoTables
  | BadTableIndex int nat
  | TooFewCells nat
  | EmptyName nat
  | EmptyGreeting nat
  | EmptyDear nat
  | NoFilledRows
  | TemplateNotFound
  | FontNotFound
  | TemplateTooShort
  | IndexError

definition DOCX_TABLE_INDEX :: int where
  "DOCX_TABLE_INDEX = 0"

definition HAS_HEADER_ROW :: bool where
  "HAS_HEADER_ROW = True"

definition SKIP_EMPTY_ROWS :: bool where
  "SKIP_EMPTY_ROWS = True"

text \<open>
  The opened document, as far as the program reads it: \<open>doc.tables\<close>, each table being
  the list of its row elements (\<open>table.rows[i]._tr\<close>).
\<close>

type_synonym docx = "xnode list list"

text \<open>
  The loop of \<open>read_rows_from_docx\<close> (main.py, lines 117-138) from row index \<open>i\<close> on, with
  the accumulator \<open>out\<close>. A \<open>raise\<close> is \<open>Inl\<close>, \<open>continue\<close> is the recursive call with
  \<open>out\<close> unchanged.
\<close>

fun rows_loop :: "nat \<Rightarrow> xnode list \<Rightarrow> RowData list \<Rightarrow> error + RowData list" where
  "rows_loop i [] out = Inr out"
| "rows_loop i (tr # rest) out =
     (let tcs = tcs_from_row_xml tr in
      if length tcs < 3 then Inl (TooFewCells (i + 1))
      else
        let nm = norm_str (text_from_tc (tcs ! 0));
            gr = norm_str (text_from_tc (tcs ! 1));
            de = norm_str (text_from_tc (tcs ! 2))
        in
          if SKIP_EMPTY_ROWS \<and> (nm = [] \<and> gr = [] \<and> de = []) then rows_loop (i + 1) rest out
          else if nm = [] then Inl (EmptyName (i + 1))
          else if gr = [] then Inl (EmptyGreeting (i + 1))
          else if de = [] then Inl (EmptyDear (i + 1))
          else rows_loop (i + 1) rest (out @ [\<lparr>name = nm, greeting = gr, dear = de\<rparr>]))"

text \<open>\<open>read_rows_from_docx\<close> (main.py, lines 105-142).\<close>

definition read_rows_from_docx :: "docx \<Rightarrow> error + RowData list" where
  "read_rows_from_docx doc =
     (if doc = [] then Inl NoTables
      else if DOCX_TABLE_INDEX < 0 \<or> DOCX_TABLE_INDEX \<ge> int (length doc) then
        Inl (BadTableIndex DOCX_TABLE_INDEX (length doc))
      else
        let table = doc ! nat DOCX_TABLE_INDEX;
            start_idx = (if HAS_HEADER_ROW then 1 else 0)
        in (case rows_loop start_idx (drop start_idx table) [] of
              Inl e \<Rightarrow> Inl e
            | Inr out \<Rightarrow> if out = [] then Inl NoFilledRows else Inr out))"

text \<open>The three normalised fields of a row that has at least three cells.\<close>

definition row_fields :: "xnode \<Rightarrow> ustr \<times> ustr \<times> ustr" where
  "row_fields tr =
     (let tcs = tcs_from_row_xml tr in
      (norm_str (text_from_tc (tcs ! 0)),
       norm_str (text_from_tc (tcs ! 1)),
       norm_str (text_from_tc (tcs ! 2))))"

definition enough_cells :: "xnode \<Rightarrow> bool" where
  "enough_cells tr \<longleftrightarrow> 3 \<le> length (tcs_from_row_xml tr)"

definition blank_row :: "xnode \<Rightarrow> bool" where
  "blank_row tr \<longleftrightarrow> enough_cells tr \<and> row_fields tr = ([], [], [])"

definition populated_row :: "xnode \<Rightarrow> bool" where
  "populated_row tr \<longleftrightarrow>
     enough_cells tr \<and>
     (case row_fields tr of (nm, gr, de) \<Rightarrow> nm \<noteq> [] \<and> gr \<noteq> [] \<and> de \<noteq> [])"

definition row_record :: "xnode \<Rightarrow> RowData" where
  "row_record tr = (case row_fields tr of (nm, gr, de) \<Rightarrow> \<lparr>name = nm, greeting = gr, dear = de\<rparr>)"

text \<open>The data rows of the selected table: the rows after the header row.\<close>

definition data_rows :: "docx \<Rightarrow> xnode list" where
  "data_rows doc =
     (if nat DOCX_TABLE_INDEX < length doc
      then drop (if HAS_HEADER_ROW then 1 else 0) (doc ! nat DOCX_TABLE_INDEX) else [])"


section \<open>The output file name\<close>

text \<open>The fields of a \<open>datetime\<close> that the program reads.\<close>

record date =
  year :: nat
  month :: nat
  day :: nat

text \<open>
  The clock: \<open>clock tz\<close> is what \<open>datetime.now(ZoneInfo(tz))\<close> returns at the moment of the
  call, the calendar date in the time zone named \<open>tz\<close>.
\<close>

type_synonym clock = "string \<Rightarrow> date"

definition TZ_NAME :: string where
  "TZ_NAME = ''Europe/Minsk''"

text \<open>The decimal digits of a number, as code points.\<close>

fun decimal :: "nat \<Rightarrow> ustr" where
  "decimal n = (if n < 10 then [48 + n] else decimal (n div 10) @ [48 + n mod 10])"

declare decimal.simps [simp del]

text \<open>The format specification \<open>0kd\<close>: zero padding on the left up to width \<open>k\<close>.\<close>

definition zero_pad :: "nat \<Rightarrow> nat \<Rightarrow> ustr" where
  "zero_pad k n = replicate (k - length (decimal n)) 48 @ decimal n"

text \<open>\<open>os.path.basename\<close> (POSIX): what follows the last slash.\<close>

definition basename :: "ustr \<Rightarrow> ustr" where
  "basename p = rev (takeWhile (\<lambda>c. c \<noteq> 47) (rev p))"

text \<open>
  The first component of \<open>os.path.splitext\<close> on a name without a slash: the name up to
  its last dot, when a character other than a dot precedes that dot.
\<close>

definition splitext_root :: "ustr \<Rightarrow> ustr" where
  "splitext_root b =
     (let ext = takeWhile (\<lambda>c. c \<noteq> 46) (rev b);
          before = drop (length ext + 1) (rev b)
      in if length ext < length b \<and> filter (\<lambda>c. c \<noteq> 46) before \<noteq> [] then rev before else b)"

text \<open>\<open>s.replace("  ", " ")\<close>: non-overlapping occurrences, from the left.\<close>

fun replace_double_space :: "ustr \<Rightarrow> ustr" where
  "replace_double_space (a # b # cs) =
     (if a = 32 \<and> b = 32 then 32 # replace_double_space cs
      else a # replace_double_space (b # cs))"
| "replace_double_space cs = cs"

text \<open>The fixed suffix \<open>_<Cyrillic word>.pdf\<close> of the returned name, as code points.\<close>

definition name_suffix :: ustr where
  "name_suffix = [95, 1042, 1082, 1083, 1072, 1076, 1099, 1096, 1080, 46, 112, 100, 102]"

text \<open>
  \<open>output_filename_from_docx\<close> (main.py, lines 145-161). \<open>isalnum\<close> stands for Python's
  \<open>str.isalnum\<close> on one character, a table of the Unicode database. The statements that
  build \<open>safe_stem\<close> are kept as they are in the source.
\<close>

definition output_filename_from_docx :: "(nat \<Rightarrow> bool) \<Rightarrow> clock \<Rightarrow> ustr \<Rightarrow> ustr" where
  "output_filename_from_docx isalnum clk docx_path =
     (let now = clk TZ_NAME;
          stem = strip (splitext_root (basename docx_path));
          allowed_extra = {32, 95, 45};
          safe_stem_chars = filter (\<lambda>ch. isalnum ch \<or> ch \<in> allowed_extra) stem;
          safe_stem = strip (replace_double_space safe_stem_chars);
          safe_stem = (if safe_stem = [] then [87, 111, 114, 100] else safe_stem)
      in zero_pad 4 (year now) @ [95] @ zero_pad 2 (month now) @ [95] @ zero_pad 2 (day now)
         @ name_suffix)"


section \<open>The overlay\<close>

text \<open>
  A page is its size and its content stream, a list of drawing operators. \<open>Opaque\<close>
  stands for whatever the template's pages already contain.
\<close>

datatype align = Left | Center

datatype draw_op =
    SaveState
  | RestoreState
  | Translate real real
  | Rotate real
  | DrawString ustr
  | DrawCentredString ustr
  | SetFillColorRGB real real real
  | SetFont string real
  | Opaque nat

record page =
  width :: real
  height :: real
  contents :: "draw_op list"

text \<open>A decoded paged document is the list of its pages.\<close>

type_synonym pdf = "page list"

record text_pos =
  pos_x :: real
  pos_y :: real
  rotate_deg :: real
  pos_align :: align

definition FONT_NAME :: string where
  "FONT_NAME = ''Montserrat''"

definition FONT_SIZE :: real where
  "FONT_SIZE = 10"

definition TEXT_COLOR_RGB :: "real \<times> real \<times> real" where
  "TEXT_COLOR_RGB = (220, 0, 0)"

definition SALUTATION_POS :: text_pos where
  "SALUTATION_POS = \<lparr>pos_x = 75, pos_y = 480, rotate_deg = 90, pos_align = Left\<rparr>"

definition GREETING_POS :: text_pos where
  "GREETING_POS = \<lparr>pos_x = 118, pos_y = 500, rotate_deg = 90, pos_align = Left\<rparr>"

text \<open>
  The drawing canvas of the rendering library, as far as the program drives it: the page
  size given at construction, the operators of the page being drawn, and the pages
  already finished. \<open>showPage\<close> closes the current page with the canvas's page size;
  \<open>save\<close> closes a page that still has operators and returns the document.
\<close>

record canvas =
  pagesize :: "real \<times> real"
  code :: "draw_op list"
  finished :: "page list"

definition Canvas :: "real \<times> real \<Rightarrow> canvas" where
  "Canvas ps = \<lparr>pagesize = ps, code = [], finished = []\<rparr>"

definition emit :: "draw_op \<Rightarrow> canvas \<Rightarrow> canvas" where
  "emit op c = c\<lparr>code := code c @ [op]\<rparr>"

definition showPage :: "canvas \<Rightarrow> canvas" where
  "showPage c =
     c\<lparr>finished := finished c @
          [\<lparr>width = fst (pagesize c), height = snd (pagesize c), contents = code c\<rparr>],
       code := []\<rparr>"

definition save :: "canvas \<Rightarrow> pdf" where
  "save c = (if code c \<noteq> [] then finished (showPage c) else finished c)"

text \<open>\<open>draw_text_block\<close> (main.py, lines 167-189).\<close>

definition draw_text_block :: "canvas \<Rightarrow> ustr \<Rightarrow> real \<Rightarrow> real \<Rightarrow> real \<Rightarrow> align \<Rightarrow> canvas" where
  "draw_text_block c text x y rot al =
     (let c = emit SaveState c;
          c = emit (Translate x y) c;
          c = (if rot \<noteq> 0 then emit (Rotate rot) c else c);
          c = (if al = Center then emit (DrawCentredString text) c
               else emit (DrawString text) c)
      in emit RestoreState c)"

text \<open>\<open>make_overlay_pdf\<close> (main.py, lines 192-226); the result is the decoded document.\<close>

definition make_overlay_pdf :: "real \<Rightarrow> real \<Rightarrow> ustr \<Rightarrow> ustr \<Rightarrow> pdf" where
  "make_overlay_pdf page_width page_height salutation_text greeting_text =
     (let c = Canvas (page_width, page_height);
          (r, g, b) = TEXT_COLOR_RGB;
          c = emit (SetFillColorRGB (r / 255) (g / 255) (b / 255)) c;
          c = emit (SetFont FONT_NAME FONT_SIZE) c;
          c = draw_text_block c salutation_text (pos_x SALUTATION_POS) (pos_y SALUTATION_POS)
                (rotate_deg SALUTATION_POS) (pos_align SALUTATION_POS);
          c = draw_text_block c greeting_text (pos_x GREETING_POS) (pos_y GREETING_POS)
                (rotate_deg GREETING_POS) (pos_align GREETING_POS);
          c = showPage c
      in save c)"

text \<open>\<open>SALUTATION_FORMAT = "{dear} {name}!"\<close> and \<open>GREETING_FORMAT = "{greeting}"\<close>.\<close>

definition salutation_format :: "RowData \<Rightarrow> ustr" where
  "salutation_format row = dear row @ [32] @ name row @ [33]"

definition greeting_format :: "RowData \<Rightarrow> ustr" where
  "greeting_format row = greeting row"


section \<open>Composing the pages\<close>

text \<open>
  Page objects are mutable and can be shared, so they live in a store: addresses below
  \<open>next_addr\<close> are allocated. Opening a reader on a document decodes it into page
  objects of its own.
\<close>

record pdf_state =
  heap :: "nat \<Rightarrow> page"
  next_addr :: nat

definition alloc :: "page \<Rightarrow> pdf_state \<Rightarrow> nat \<times> pdf_state" where
  "alloc p st = (next_addr st, st\<lparr>heap := (heap st)(next_addr st := p), next_addr := next_addr st + 1\<rparr>)"

text \<open>\<open>PdfReader(io.BytesIO(bytes)).pages\<close>: the addresses of freshly decoded pages.\<close>

fun PdfReader :: "pdf \<Rightarrow> pdf_state \<Rightarrow> nat list \<times> pdf_state" where
  "PdfReader [] st = ([], st)"
| "PdfReader (p # ps) st =
     (let (a, st) = alloc p st; (as, st) = PdfReader ps st in (a # as, st))"

text \<open>
  \<open>writer.add_page(page)\<close> appends a page to the writer's page list and returns the page
  object that the writer now holds. Depending on the version of the library this is a
  copy of the argument (\<open>clones\<close>) or the argument itself.
\<close>

definition add_page :: "bool \<Rightarrow> nat list \<Rightarrow> nat \<Rightarrow> pdf_state \<Rightarrow> nat list \<times> nat \<times> pdf_state" where
  "add_page clones writer a st =
     (if clones then (let (b, st) = alloc (heap st a) st in (writer @ [b], b, st))
      else (writer @ [a], a, st))"

text \<open>
  \<open>page.merge_page(overlay)\<close>: the overlay's content is drawn after the page's own; the
  page's size stays, and the overlay page is not changed.
\<close>

definition merged :: "page \<Rightarrow> page \<Rightarrow> page" where
  "merged p overlay = p\<lparr>contents := contents p @ contents overlay\<rparr>"

definition merge_page :: "nat \<Rightarrow> nat \<Rightarrow> pdf_state \<Rightarrow> pdf_state" where
  "merge_page a overlay st = st\<lparr>heap := (heap st)(a := merged (heap st a) (heap st overlay))\<rparr>"

text \<open>\<open>pages[i]\<close> of a reader; out of range it raises.\<close>

definition page_at :: "nat list \<Rightarrow> nat \<Rightarrow> error + nat" where
  "page_at pages i = (if i < length pages then Inr (pages ! i) else Inl IndexError)"

text \<open>The body of the loop \<open>for row in rows\<close> of \<open>generate_pdf\<close> (main.py, lines 262-278).\<close>

definition compose_row ::
  "bool \<Rightarrow> pdf \<Rightarrow> real \<Rightarrow> real \<Rightarrow> RowData \<Rightarrow> nat list \<Rightarrow> pdf_state \<Rightarrow> error + nat list \<times> pdf_state"
where
  "compose_row clones template_bytes page_width page_height row writer st =
     (let salutation_text = salutation_format row;
          greeting_text = greeting_format row;
          overlay_bytes = make_overlay_pdf page_width page_height salutation_text greeting_text;
          (overlay_reader, st) = PdfReader overlay_bytes st
      in case page_at overlay_reader 0 of
           Inl e \<Rightarrow> Inl e
         | Inr overlay_page \<Rightarrow>
             (let (fresh_reader, st) = PdfReader template_bytes st
              in (case page_at fresh_reader 1 of
                    Inl e \<Rightarrow> Inl e
                  | Inr fresh_base_page \<Rightarrow>
                      (let (writer, new_page, st) = add_page clones writer fresh_base_page st
                       in Inr (writer, merge_page new_page overlay_page st)))))"

fun pages_loop ::
  "bool \<Rightarrow> pdf \<Rightarrow> real \<Rightarrow> real \<Rightarrow> RowData list \<Rightarrow> nat list \<Rightarrow> pdf_state \<Rightarrow> error + nat list \<times> pdf_state"
where
  "pages_loop clones tb pw ph [] writer st = Inr (writer, st)"
| "pages_loop clones tb pw ph (row # rows) writer st =
     (case compose_row clones tb pw ph row writer st of
        Inl e \<Rightarrow> Inl e
      | Inr (writer, st) \<Rightarrow> pages_loop clones tb pw ph rows writer st)"

text \<open>
  What the run finds outside the input document: the template file (\<open>None\<close> when it
  does not exist), whether the font file exists, and the clock.
\<close>

record env =
  template_file :: "pdf option"
  font_file :: bool
  wall_clock :: clock

definition empty_state :: pdf_state where
  "empty_state = \<lparr>heap = (\<lambda>a. \<lparr>width = 0, height = 0, contents = []\<rparr>), next_addr = 0\<rparr>"

text \<open>
  \<open>generate_pdf\<close> (main.py, lines 229-284). The result is the returned path together
  with the pages that \<open>writer.write\<close> puts into the file. The checks come in the order
  of the source: template file, font file, the rows of the document, the page count of
  the template. Registering the font only names the typeface for the canvas.
\<close>

definition generate_pdf ::
  "bool \<Rightarrow> (nat \<Rightarrow> bool) \<Rightarrow> env \<Rightarrow> ustr \<Rightarrow> docx \<Rightarrow> error + ustr \<times> pdf"
where
  "generate_pdf clones isalnum e docx_path doc =
     (case template_file e of
        None \<Rightarrow> Inl TemplateNotFound
      | Some template_bytes \<Rightarrow>
          if \<not> font_file e then Inl FontNotFound
          else
            (case read_rows_from_docx doc of
               Inl err \<Rightarrow> Inl err
             | Inr rows \<Rightarrow>
                 (let (reader0, st) = PdfReader template_bytes empty_state
                  in if length reader0 < 2 then Inl TemplateTooShort
                     else
                       (let page1 = reader0 ! 0;
                            base0 = reader0 ! 1;
                            page_width = width (heap st base0);
                            page_height = height (heap st base0);
                            (writer, new_page, st) = add_page clones [] page1 st
                        in (case pages_loop clones template_bytes page_width page_height rows
                                   writer st of
                              Inl err \<Rightarrow> Inl err
                            | Inr (writer, st) \<Rightarrow>
                                Inr (output_filename_from_docx isalnum (wall_clock e) docx_path,
                                     map (heap st) writer))))))"

text \<open>The page generated for one record: the template's reference page under the overlay.\<close>

definition page_for :: "pdf \<Rightarrow> RowData \<Rightarrow> page" where
  "page_for template_bytes row =
     merged (template_bytes ! 1)
       (hd (make_overlay_pdf (width (template_bytes ! 1)) (height (template_bytes ! 1))
              (salutation_format row) (greeting_format row)))"

section \<open>Sample inputs\<close>

text \<open>
  A table cell as a word processor writes it (one paragraph, one run, one text element)
  and a row of such cells; the concrete rows and documents below are built from them.
\<close>

definition plain_cell :: "ustr \<Rightarrow> xnode" where
  "plain_cell s =
     Element (w_tag ''tc'')
       [Element (w_tag ''p'') [Element (w_tag ''r'') [Element (w_tag ''t'') [Text s]]]]"

definition plain_row :: "ustr list \<Rightarrow> xnode" where
  "plain_row texts = Element (w_tag ''tr'') (map plain_cell texts)"

text \<open>\<open>str.isalnum\<close> on the ASCII characters.\<close>

definition ascii_alnum :: "nat \<Rightarrow> bool" where
  "ascii_alnum c \<longleftrightarrow> (48 \<le> c \<and> c \<le> 57) \<or> (65 \<le> c \<and> c \<le> 90) \<or> (97 \<le> c \<and> c \<le> 122)"

text \<open>
  The clock at two moments of 1 January 2024 in universal time: at 10:00 the date in
  Minsk (three hours ahead) is 1 January as well, at 22:00 it is already 2 January.
\<close>

definition clock_at_10_utc :: clock where
  "clock_at_10_utc tz = \<lparr>year = 2024, month = 1, day = 1\<rparr>"

definition clock_at_22_utc :: clock where
  "clock_at_22_utc tz =
     (if tz = ''Europe/Minsk'' then \<lparr>year = 2024, month = 1, day = 2\<rparr>
      else \<lparr>year = 2024, month = 1, day = 1\<rparr>)"

text \<open>A two-page template of 200 by 400 units, and a document with a header and two rows.\<close>

definition sample_template :: pdf where
  "sample_template =
     [\<lparr>width = 200, height = 400, contents = [Opaque 0]\<rparr>,
      \<lparr>width = 200, height = 400, contents = [Opaque 1]\<rparr>]"

definition sample_doc :: docx where
  "sample_doc =
     [[plain_row [[78], [71], [68]], plain_row [[65], [66], [67]], plain_row [[68], [69], [70]]]]"

definition sample_env :: env where
  "sample_env =
     \<lparr>template_file = Some sample_template, font_file = True, wall_clock = clock_at_10_utc\<rparr>"


section \<open>Normalisation: the code against the rule\<close>

lemma isspace_32 [simp]: "isspace 32"
  by (simp add: isspace_def)

lemma rstrip_Nil [simp]: "rstrip [] = []"
  by (simp add: rstrip_def)

lemma rstrip_Cons:
  "rstrip (c # s) = (if isspace c \<and> rstrip s = [] then [] else c # rstrip s)"
  by (auto simp: rstrip_def dropWhile_append dropWhile_eq_Nil_conv)

lemma rstrip_append_nonspace:
  "\<forall>c\<in>set xs. \<not> isspace c \<Longrightarrow> rstrip (xs @ ys) = xs @ rstrip ys"
  by (induction xs) (auto simp: rstrip_Cons)

lemma lstrip_collapse_lstrip: "lstrip (collapse_ws (lstrip s)) = lstrip (collapse_ws s)"
  by (cases s) (auto simp: lstrip_def)

lemma collapse_lstrip_fix: "lstrip (collapse_ws (lstrip s)) = collapse_ws (lstrip s)"
  by (induction s) (auto simp: lstrip_def)

lemma collapse_append_nonspace:
  "\<forall>c\<in>set xs. \<not> isspace c \<Longrightarrow> collapse_ws (xs @ ys) = xs @ collapse_ws ys"
  by (induction xs) auto

lemma split_ws_nonempty_words: "w \<in> set (split_ws s) \<Longrightarrow> w \<noteq> []"
  by (induction s rule: split_ws.induct) (auto split: if_splits)

lemma join_eq_Nil: "\<forall>w\<in>set ws. w \<noteq> [] \<Longrightarrow> join sep ws = [] \<longleftrightarrow> ws = []"
  by (induction sep ws rule: join.induct) auto

lemma join_Cons: "join sep (w # ws) = (if ws = [] then w else w @ sep @ join sep ws)"
  by (cases ws) auto

text \<open>
  Joining the words of a string with single spaces is collapsing its whitespace runs and
  trimming both ends. The induction follows \<open>split_ws\<close>; in the step for a word, the rest
  after the word is empty or starts with whitespace.
\<close>

lemma join_split_collapse: "join [32] (split_ws t) = strip (collapse_ws t)"
proof (induction t rule: split_ws.induct)
  case 1
  show ?case by (simp add: strip_def lstrip_def)
next
  case (2 c cs)
  show ?case
  proof (cases "isspace c")
    case True
    have "strip (collapse_ws (c # cs)) = rstrip (lstrip (collapse_ws (lstrip cs)))"
      using True by (simp add: strip_def lstrip_def)
    also have "\<dots> = strip (collapse_ws cs)"
      by (simp add: lstrip_collapse_lstrip strip_def)
    finally show ?thesis using True 2 by simp
  next
    case False
    define tw where "tw = takeWhile (\<lambda>d. \<not> isspace d) cs"
    define dw where "dw = dropWhile (\<lambda>d. \<not> isspace d) cs"
    have cs: "cs = tw @ dw" by (simp add: tw_def dw_def)
    have tw: "\<forall>x\<in>set (c # tw). \<not> isspace x"
      using False by (auto simp: tw_def dest: set_takeWhileD)
    have IH: "join [32] (split_ws dw) = strip (collapse_ws dw)"
      using 2(2)[OF False] by (simp add: dw_def)
    have lhs: "join [32] (split_ws (c # cs)) =
        (if split_ws dw = [] then c # tw else (c # tw) @ [32] @ join [32] (split_ws dw))"
      using False by (simp add: tw_def dw_def join_Cons)
    have "collapse_ws (c # cs) = (c # tw) @ collapse_ws dw"
      using collapse_append_nonspace[OF tw, of dw] cs by simp
    then have rhs: "strip (collapse_ws (c # cs)) = (c # tw) @ rstrip (collapse_ws dw)"
      using False rstrip_append_nonspace[OF tw, of "collapse_ws dw"]
      by (simp add: strip_def lstrip_def)
    show ?thesis
    proof (cases dw)
      case Nil
      then show ?thesis using lhs rhs by simp
    next
      case (Cons d ds)
      have d: "isspace d"
        using Cons hd_dropWhile[of "\<lambda>d. \<not> isspace d" cs] by (auto simp: dw_def)
      define Y where "Y = collapse_ws (lstrip ds)"
      have cd: "collapse_ws dw = 32 # Y" using Cons d by (simp add: Y_def lstrip_def)
      have "strip (collapse_ws dw) = rstrip (lstrip Y)"
        by (simp add: cd strip_def lstrip_def)
      then have J: "join [32] (split_ws dw) = rstrip Y"
        using IH by (simp add: Y_def collapse_lstrip_fix)
      have E: "split_ws dw = [] \<longleftrightarrow> rstrip Y = []"
        using J join_eq_Nil[of "split_ws dw" "[32]"] split_ws_nonempty_words[of _ dw] by auto
      have "rstrip (collapse_ws dw) = (if rstrip Y = [] then [] else 32 # rstrip Y)"
        by (simp add: cd rstrip_Cons)
      then show ?thesis using lhs rhs J E by simp
    qed
  qed
qed

lemma split_ws_lstrip: "split_ws (lstrip t) = split_ws t"
  by (induction t) (auto simp: lstrip_def)

lemma takeWhile_rstrip:
  "takeWhile (\<lambda>d. \<not> isspace d) (rstrip s) = takeWhile (\<lambda>d. \<not> isspace d) s"
  by (induction s) (auto simp: rstrip_Cons)

lemma dropWhile_rstrip:
  "dropWhile (\<lambda>d. \<not> isspace d) (rstrip s) = rstrip (dropWhile (\<lambda>d. \<not> isspace d) s)"
  by (induction s) (auto simp: rstrip_Cons)

lemma split_ws_rstrip: "split_ws (rstrip t) = split_ws t"
proof (induction t rule: split_ws.induct)
  case 1
  show ?case by simp
next
  case (2 c cs)
  show ?case
  proof (cases "isspace c")
    case True
    then show ?thesis using 2(1) by (auto simp: rstrip_Cons)
  next
    case False
    then show ?thesis using 2(2) by (simp add: rstrip_Cons takeWhile_rstrip dropWhile_rstrip)
  qed
qed

lemma split_ws_strip: "split_ws (strip t) = split_ws t"
  by (simp add: strip_def split_ws_rstrip split_ws_lstrip)

text \<open>
  Claim C3. For every string \<open>s\<close>, \<open>_norm\<close> returns what the rule describes: the
  non-breaking spaces replaced by spaces, every run of whitespace collapsed to one ASCII
  space, and leading and trailing whitespace trimmed. Two spaces, \<open>A\<close>, two non-breaking
  spaces, \<open>B\<close>, two spaces normalise to \<open>A B\<close>.
\<close>

theorem norm_str_collapses_and_trims:
  "norm_str s = spec_norm s \<and> norm_str [32, 32, 65, 160, 160, 66, 32, 32] = [65, 32, 66]"
proof
  show "norm_str s = spec_norm s"
    by (simp add: norm_str_def spec_norm_def split_ws_strip join_split_collapse)
  show "norm_str [32, 32, 65, 160, 160, 66, 32, 32] = [65, 32, 66]"
    by (simp add: norm_str_def strip_def lstrip_def rstrip_def replace_nbsp_def isspace_def)
qed

section \<open>Unwrapping content controls\<close>

lemma w_tag_eq [simp]: "w_tag a = w_tag b \<longleftrightarrow> a = b"
  by (simp add: w_tag_def)

lemma concat_map_if_singleton: "concat (map (\<lambda>g. if P g then [g] else []) xs) = filter P xs"
  by (induction xs) auto

lemma concat_map_if_filter:
  "concat (map (\<lambda>b. if P b then f b else []) xs) = concat (map f (filter P xs))"
  by (induction xs) auto

lemma contributed_cells_code:
  "contributed_cells child =
     (if node_tag child = Some (w_tag ''tc'') then [child]
      else if node_tag child = Some (w_tag ''sdt'') then xpath_sdtContent_tc child
      else [])"
  by (cases child)
     (auto simp: contributed_cells_def xpath_sdtContent_tc_def concat_map_if_singleton
        concat_map_if_filter)

text \<open>The accumulator of the loop grows by each child's contribution, in order.\<close>

lemma tcs_loop_concat: "tcs_loop kids out = out @ concat (map contributed_cells kids)"
  by (induction kids arbitrary: out) (simp_all add: contributed_cells_code)

lemma tcs_from_row_xml_concat:
  "tcs_from_row_xml tr = concat (map contributed_cells (node_children tr))"
  by (simp add: tcs_from_row_xml_def tcs_loop_concat)







text \<open>
  Claim C10. The unwrapped cell list of a row is, child by child and in document order,
  the child itself when it is a table cell, the table cells that are direct children of
  a content body of the child when it is a content control, and nothing otherwise. So a
  content control nested in the content body of another, a cell one level deeper in a
  content body, a cell directly under the content control, and text, comments and other
  elements at row level all contribute no cell.
\<close>

theorem row_cells_exactly:
  "tcs_from_row_xml (Element t kids) = concat (map contributed_cells kids) \<and>
   tcs_from_row_xml
     (Element t [Element (w_tag ''sdt'') [Element (w_tag ''sdtContent'')
        [Element (w_tag ''sdt'') [Element (w_tag ''sdtContent'') cells]]]]) = [] \<and>
   tcs_from_row_xml
     (Element t [Element (w_tag ''sdt'') [Element (w_tag ''sdtContent'')
        [Element (w_tag ''tr'') cells]]]) = [] \<and>
   tcs_from_row_xml (Element t [Element (w_tag ''sdt'') [Element (w_tag ''tc'') inner]]) = [] \<and>
   tcs_from_row_xml (Element t [Text s, Misc, Element (w_tag ''trPr'') inner]) = []"
  by (simp add: tcs_from_row_xml_concat contributed_cells_code xpath_sdtContent_tc_def
        has_tag_def)

section \<open>The row loop\<close>

lemma rows_loop_blank:
  "blank_row tr \<Longrightarrow> rows_loop i (tr # rest) out = rows_loop (i + 1) rest out"
  by (simp add: blank_row_def enough_cells_def row_fields_def SKIP_EMPTY_ROWS_def Let_def)

lemma rows_loop_populated:
  "populated_row tr \<Longrightarrow>
   rows_loop i (tr # rest) out = rows_loop (i + 1) rest (out @ [row_record tr])"
  by (auto simp: populated_row_def enough_cells_def row_fields_def row_record_def Let_def)

text \<open>
  Rows that are blank or fully populated are passed without an error: the loop arrives
  behind them with the index advanced and the records of the populated ones appended.
\<close>

lemma rows_loop_prefix:
  "\<forall>r\<in>set pre. blank_row r \<or> populated_row r \<Longrightarrow>
   rows_loop i (pre @ rest) out =
   rows_loop (i + length pre) rest (out @ map row_record (filter populated_row pre))"
proof (induction pre arbitrary: i out)
  case Nil
  show ?case by simp
next
  case (Cons r pre)
  have rest: "\<forall>r\<in>set pre. blank_row r \<or> populated_row r" using Cons.prems by simp
  show ?case
  proof (cases "populated_row r")
    case True
    then show ?thesis
      using Cons.IH[OF rest, of "i + 1" "out @ [row_record r]"]
      by (simp add: rows_loop_populated del: rows_loop.simps)
  next
    case False
    then have b: "blank_row r" using Cons.prems by simp
    show ?thesis
      using Cons.IH[OF rest, of "i + 1" out] False
      by (simp add: rows_loop_blank[OF b] del: rows_loop.simps)
  qed
qed

text \<open>Conversely, a loop that returns has seen only blank and fully populated rows.\<close>

lemma rows_loop_Inr:
  "rows_loop i rows out = Inr res \<Longrightarrow>
   (\<forall>r\<in>set rows. blank_row r \<or> populated_row r) \<and>
   res = out @ map row_record (filter populated_row rows)"
proof (induction rows arbitrary: i out)
  case Nil
  then show ?case by simp
next
  case (Cons r rows)
  show ?case
  proof (cases "blank_row r")
    case True
    then have np: "\<not> populated_row r" by (auto simp: blank_row_def populated_row_def)
    from Cons.prems have "rows_loop (i + 1) rows out = Inr res"
      by (simp add: rows_loop_blank[OF True] del: rows_loop.simps)
    from Cons.IH[OF this] True np show ?thesis by simp
  next
    case False
    have p: "populated_row r"
    proof (rule ccontr)
      assume "\<not> populated_row r"
      then have "\<exists>e. rows_loop i (r # rows) out = Inl e"
        using False
        by (auto simp: populated_row_def blank_row_def enough_cells_def row_fields_def Let_def
              SKIP_EMPTY_ROWS_def)
      then show False using Cons.prems by auto
    qed
    from Cons.prems have "rows_loop (i + 1) rows (out @ [row_record r]) = Inr res"
      by (simp add: rows_loop_populated[OF p] del: rows_loop.simps)
    from Cons.IH[OF this] p show ?thesis by simp
  qed
qed

lemma read_rows_from_docx_unfold:
  "doc \<noteq> [] \<Longrightarrow>
   read_rows_from_docx doc =
     (case rows_loop 1 (data_rows doc) [] of
        Inl e \<Rightarrow> Inl e
      | Inr out \<Rightarrow> if out = [] then Inl NoFilledRows else Inr out)"
  by (cases doc) (simp_all add: read_rows_from_docx_def data_rows_def DOCX_TABLE_INDEX_def
        HAS_HEADER_ROW_def)

lemma read_rows_from_docx_Inr:
  assumes "read_rows_from_docx doc = Inr rows"
  shows "rows = map row_record (filter populated_row (data_rows doc)) \<and> rows \<noteq> [] \<and>
         (\<forall>r\<in>set (data_rows doc). blank_row r \<or> populated_row r)"
proof -
  have ne: "doc \<noteq> []" using assms by (auto simp: read_rows_from_docx_def)
  from assms obtain out where o: "rows_loop 1 (data_rows doc) [] = Inr out"
    and r: "out = rows" "out \<noteq> []"
    by (auto simp: read_rows_from_docx_unfold[OF ne] split: sum.splits if_splits)
  from rows_loop_Inr[OF o] r show ?thesis by simp
qed

lemma read_rows_from_docx_at:
  assumes "data_rows doc = pre @ tr # post"
    and "\<forall>r\<in>set pre. blank_row r \<or> populated_row r"
  shows "read_rows_from_docx doc =
     (case rows_loop (length pre + 1) (tr # post) (map row_record (filter populated_row pre)) of
        Inl e \<Rightarrow> Inl e
      | Inr out \<Rightarrow> if out = [] then Inl NoFilledRows else Inr out)"
proof -
  have ne: "doc \<noteq> []" using assms(1) by (auto simp: data_rows_def)
  show ?thesis
    using rows_loop_prefix[OF assms(2), of 1 "tr # post" "[]"] assms(1)
    by (simp add: read_rows_from_docx_unfold[OF ne] del: rows_loop.simps)
qed

lemma read_rows_from_docx_short_row:
  assumes "tr \<in> set (data_rows doc)" and "length (tcs_from_row_xml tr) < 3"
  shows "\<exists>e. read_rows_from_docx doc = Inl e"
proof (cases "read_rows_from_docx doc")
  case (Inl e)
  then show ?thesis by simp
next
  case (Inr rows)
  from read_rows_from_docx_Inr[OF Inr] assms(1) have "blank_row tr \<or> populated_row tr" by simp
  then show ?thesis
    using assms(2) by (auto simp: blank_row_def populated_row_def enough_cells_def)
qed

text \<open>
  Claim C5. When the loop reaches, at row index \<open>i\<close>, a row whose unwrapped cell list
  has fewer than 3 cells, it raises the error for too few cells with the 1-based row
  number \<open>i + 1\<close>, whatever was collected so far and whatever follows. In a document
  whose earlier data rows are all blank or fully populated, so that the loop reaches
  the row, \<open>read_rows_from_docx\<close> raises that error with the row's number in the table
  (the data rows before it, the header row, plus one). A document with such a data row
  never yields a record sequence.
\<close>

theorem too_few_cells_is_fatal:
  assumes "length (tcs_from_row_xml tr) < 3"
  shows
    "rows_loop i (tr # rest) out = Inl (TooFewCells (i + 1)) \<and>
     (data_rows doc = pre @ tr # post \<and> (\<forall>r\<in>set pre. blank_row r \<or> populated_row r) \<longrightarrow>
        read_rows_from_docx doc = Inl (TooFewCells (length pre + 2))) \<and>
     (tr \<in> set (data_rows doc) \<longrightarrow> (\<exists>e. read_rows_from_docx doc = Inl e))"
proof (intro conjI impI)
  show "rows_loop i (tr # rest) out = Inl (TooFewCells (i + 1))"
    using assms by simp
next
  assume a: "data_rows doc = pre @ tr # post \<and> (\<forall>r\<in>set pre. blank_row r \<or> populated_row r)"
  then show "read_rows_from_docx doc = Inl (TooFewCells (length pre + 2))"
    using assms read_rows_from_docx_at[of doc pre tr post] by simp
next
  assume "tr \<in> set (data_rows doc)"
  then show "\<exists>e. read_rows_from_docx doc = Inl e"
    using assms by (rule read_rows_from_docx_short_row)
qed

theorem too_few_cells_is_fatal_witness:
  "length (tcs_from_row_xml (plain_row [[65], [66]])) < 3 \<and>
   rows_loop 2 [plain_row [[65], [66]]] [] = Inl (TooFewCells 3) \<and>
   read_rows_from_docx
     [[plain_row [[78], [71], [68]], plain_row [[65], [66], [67]], plain_row [[65], [66]]]]
   = Inl (TooFewCells 3)"
  using too_few_cells_is_fatal
    [where tr = "plain_row [[65], [66]]" and i = 2 and rest = "[]" and out = "[]"
       and doc = "[[plain_row [[78], [71], [68]], plain_row [[65], [66], [67]],
                    plain_row [[65], [66]]]]"
       and pre = "[plain_row [[65], [66], [67]]]" and post = "[]"]
  by (simp add: plain_row_def plain_cell_def tcs_from_row_xml_def data_rows_def
        DOCX_TABLE_INDEX_def HAS_HEADER_ROW_def populated_row_def enough_cells_def
        row_fields_def text_from_tc_def norm_str_def strip_def lstrip_def rstrip_def
        replace_nbsp_def isspace_def)

lemma rows_loop_fields:
  assumes "3 \<le> length (tcs_from_row_xml tr)" and "row_fields tr = (nm, gr, de)"
  shows "rows_loop i (tr # rest) out =
     (if nm = [] \<and> gr = [] \<and> de = [] then rows_loop (i + 1) rest out
      else if nm = [] then Inl (EmptyName (i + 1))
      else if gr = [] then Inl (EmptyGreeting (i + 1))
      else if de = [] then Inl (EmptyDear (i + 1))
      else rows_loop (i + 1) rest (out @ [\<lparr>name = nm, greeting = gr, dear = de\<rparr>]))"
  using assms by (auto simp: row_fields_def Let_def SKIP_EMPTY_ROWS_def)

text \<open>
  Claim C6. Let a row with at least 3 cells have the normalised fields \<open>nm\<close>, \<open>gr\<close>,
  \<open>de\<close> (name, greeting, dear). If all three are empty the loop goes on to the next
  row with the collected records unchanged: the row raises nothing and adds no record.
  Otherwise, if a field is empty, the loop raises the error of the first empty field in
  the order name, greeting, dear (the one empty field, when only one is empty), with
  the 1-based row number \<open>i + 1\<close>. In a document whose earlier data rows are all blank
  or fully populated, \<open>read_rows_from_docx\<close> raises that error with the row's number in
  the table; and the records of a document that is read are those of its fully
  populated rows, so a blank row contributes none.
\<close>

theorem blank_row_skipped_empty_field_fatal:
  assumes "3 \<le> length (tcs_from_row_xml tr)" and "row_fields tr = (nm, gr, de)"
  shows
    "(nm = [] \<and> gr = [] \<and> de = [] \<longrightarrow>
        rows_loop i (tr # rest) out = rows_loop (i + 1) rest out \<and> \<not> populated_row tr) \<and>
     (nm = [] \<and> (gr \<noteq> [] \<or> de \<noteq> []) \<longrightarrow>
        rows_loop i (tr # rest) out = Inl (EmptyName (i + 1))) \<and>
     (nm \<noteq> [] \<and> gr = [] \<longrightarrow> rows_loop i (tr # rest) out = Inl (EmptyGreeting (i + 1))) \<and>
     (nm \<noteq> [] \<and> gr \<noteq> [] \<and> de = [] \<longrightarrow>
        rows_loop i (tr # rest) out = Inl (EmptyDear (i + 1))) \<and>
     (data_rows doc = pre @ tr # post \<and> (\<forall>r\<in>set pre. blank_row r \<or> populated_row r) \<and>
      \<not> (nm = [] \<and> gr = [] \<and> de = []) \<and> (nm = [] \<or> gr = [] \<or> de = []) \<longrightarrow>
        read_rows_from_docx doc =
          Inl ((if nm = [] then EmptyName else if gr = [] then EmptyGreeting else EmptyDear)
                 (length pre + 2))) \<and>
     (tr \<in> set (data_rows doc) \<and> read_rows_from_docx doc = Inr rows \<longrightarrow>
        rows = map row_record (filter populated_row (data_rows doc)))"
proof -
  note step = rows_loop_fields[OF assms]
  have np: "nm = [] \<and> gr = [] \<and> de = [] \<longrightarrow> \<not> populated_row tr"
    using assms(2) by (simp add: populated_row_def)
  have doc: "data_rows doc = pre @ tr # post \<and> (\<forall>r\<in>set pre. blank_row r \<or> populated_row r) \<and>
      \<not> (nm = [] \<and> gr = [] \<and> de = []) \<and> (nm = [] \<or> gr = [] \<or> de = []) \<longrightarrow>
        read_rows_from_docx doc =
          Inl ((if nm = [] then EmptyName else if gr = [] then EmptyGreeting else EmptyDear)
                 (length pre + 2))"
    using read_rows_from_docx_at[of doc pre tr post]
      rows_loop_fields[OF assms, of "length pre + 1" post
        "map row_record (filter populated_row pre)"]
    by (auto simp del: rows_loop.simps)
  have ok: "tr \<in> set (data_rows doc) \<and> read_rows_from_docx doc = Inr rows \<longrightarrow>
        rows = map row_record (filter populated_row (data_rows doc))"
    using read_rows_from_docx_Inr[of doc rows] by simp
  show ?thesis
    using step np doc ok by (simp del: rows_loop.simps)
qed

theorem blank_row_skipped_empty_field_fatal_witness:
  "rows_loop 1 [plain_row [[], [32], [160]], plain_row [[65], [66], [67]]] []
     = rows_loop 2 [plain_row [[65], [66], [67]]] [] \<and>
   rows_loop 1 [plain_row [[32], [66], [67]]] [] = Inl (EmptyName 2) \<and>
   rows_loop 1 [plain_row [[65], [], [67]]] [] = Inl (EmptyGreeting 2) \<and>
   rows_loop 1 [plain_row [[65], [66], [32, 32]]] [] = Inl (EmptyDear 2) \<and>
   read_rows_from_docx
     [[plain_row [[78], [71], [68]], plain_row [[65], [66], [67]], plain_row [[65], [], [67]]]]
   = Inl (EmptyGreeting 3)"
proof -
  have eval:
    "row_fields (plain_row [[], [32], [160]]) = ([], [], [])"
    "row_fields (plain_row [[32], [66], [67]]) = ([], [66], [67])"
    "row_fields (plain_row [[65], [], [67]]) = ([65], [], [67])"
    "row_fields (plain_row [[65], [66], [32, 32]]) = ([65], [66], [])"
    "row_fields (plain_row [[65], [66], [67]]) = ([65], [66], [67])"
    by (simp_all add: plain_row_def plain_cell_def tcs_from_row_xml_def row_fields_def
          text_from_tc_def norm_str_def strip_def lstrip_def rstrip_def replace_nbsp_def
          isspace_def)
  have len: "3 \<le> length (tcs_from_row_xml (plain_row [a, b, c]))" for a b c
    by (simp add: plain_row_def plain_cell_def tcs_from_row_xml_def)
  have pop: "populated_row (plain_row [[65], [66], [67]])"
    using len by (simp add: populated_row_def enough_cells_def eval)
  have dr: "data_rows [[plain_row [[78], [71], [68]], plain_row [[65], [66], [67]],
                        plain_row [[65], [], [67]]]]
            = [plain_row [[65], [66], [67]]] @ plain_row [[65], [], [67]] # []"
    by (simp add: data_rows_def DOCX_TABLE_INDEX_def HAS_HEADER_ROW_def)
  show ?thesis
    using
      blank_row_skipped_empty_field_fatal[OF len eval(1), of 1 "[plain_row [[65], [66], [67]]]" "[]"]
      blank_row_skipped_empty_field_fatal[OF len eval(2), of 1 "[]" "[]"]
      blank_row_skipped_empty_field_fatal[OF len eval(3), of 1 "[]" "[]"
        "[[plain_row [[78], [71], [68]], plain_row [[65], [66], [67]], plain_row [[65], [], [67]]]]"
        "[plain_row [[65], [66], [67]]]" "[]"]
      blank_row_skipped_empty_field_fatal[OF len eval(4), of 1 "[]" "[]"]
      pop dr
    by (simp add: numeral_2_eq_2 numeral_3_eq_3 del: rows_loop.simps)
qed

section \<open>The output file name and the overlay\<close>

text \<open>
  Claim C9, as amended. The returned name is the date of the clock in the fixed time
  zone \<open>Europe/Minsk\<close> (year on four digits, month and day on two, joined by
  underscores) followed by the fixed suffix. It is therefore the same for every input
  path and every \<open>isalnum\<close> table: the sanitised stem has no effect. On 4 November
  2026 in Minsk the name starts with \<open>2026_11_04\<close>.
\<close>

theorem output_filename_is_minsk_date:
  "output_filename_from_docx isalnum clk docx_path =
     zero_pad 4 (year (clk ''Europe/Minsk'')) @ [95] @
     zero_pad 2 (month (clk ''Europe/Minsk'')) @ [95] @
     zero_pad 2 (day (clk ''Europe/Minsk'')) @ name_suffix \<and>
   output_filename_from_docx isalnum clk docx_path =
     output_filename_from_docx isalnum' clk other_path \<and>
   zero_pad 4 2026 @ [95] @ zero_pad 2 11 @ [95] @ zero_pad 2 4
     = [50, 48, 50, 54, 95, 49, 49, 95, 48, 52]"
  by (simp add: output_filename_from_docx_def TZ_NAME_def Let_def zero_pad_def decimal.simps)

text \<open>
  Claim C9, as stated, fails: the date in the process-local time zone does not
  determine the name. A process whose local time zone is UTC sees the same local date
  at 10:00 and at 22:00 of 1 January 2024 and returns two different names for the same
  input path.
\<close>

theorem output_filename_local_date_counterexample:
  "clock_at_10_utc ''UTC'' = clock_at_22_utc ''UTC'' \<and>
   output_filename_from_docx ascii_alnum clock_at_10_utc [97, 46, 100, 111, 99, 120]
     \<noteq> output_filename_from_docx ascii_alnum clock_at_22_utc [97, 46, 100, 111, 99, 120]"
  by (simp add: output_filename_from_docx_def TZ_NAME_def Let_def zero_pad_def decimal.simps
        clock_at_10_utc_def clock_at_22_utc_def)

lemma make_overlay_pdf_page:
  "make_overlay_pdf w h s g =
     [\<lparr>width = w, height = h,
       contents =
         [SetFillColorRGB (220 / 255) 0 0, SetFont FONT_NAME FONT_SIZE,
          SaveState, Translate 75 480, Rotate 90, DrawString s, RestoreState,
          SaveState, Translate 118 500, Rotate 90, DrawString g, RestoreState]\<rparr>]"
  by (simp add: make_overlay_pdf_def Canvas_def emit_def draw_text_block_def showPage_def
        save_def TEXT_COLOR_RGB_def SALUTATION_POS_def GREETING_POS_def Let_def)

text \<open>
  Claim C7. For every width \<open>w\<close>, height \<open>h\<close> and pair of label strings, the overlay
  is a document of exactly one page, and that page has width \<open>w\<close> and height \<open>h\<close>; so
  for the size of a reference page \<open>base\<close> it has the size of \<open>base\<close>, and for 200 by
  400 it is 200 by 400.
\<close>

theorem overlay_is_one_page_of_given_size:
  "length (make_overlay_pdf w h s g) = 1 \<and>
   width (hd (make_overlay_pdf w h s g)) = w \<and>
   height (hd (make_overlay_pdf w h s g)) = h \<and>
   map (\<lambda>p. (width p, height p)) (make_overlay_pdf (width base) (height base) s g)
     = [(width base, height base)] \<and>
   map (\<lambda>p. (width p, height p)) (make_overlay_pdf 200 400 s g) = [(200, 400)]"
  by (simp add: make_overlay_pdf_page)

section \<open>The page store\<close>

text \<open>
  Decoding a document allocates its pages at the next free addresses, in order, and
  leaves every page object that existed before as it was.
\<close>

lemma PdfReader_props:
  "PdfReader ps st = (as, st') \<Longrightarrow>
   length as = length ps \<and> (\<forall>i < length ps. as ! i = next_addr st + i) \<and>
   next_addr st' = next_addr st + length ps \<and>
   (\<forall>b < next_addr st. heap st' b = heap st b) \<and>
   (\<forall>i < length ps. heap st' (next_addr st + i) = ps ! i)"
proof (induction ps arbitrary: st as st')
  case Nil
  then show ?case by simp
next
  case (Cons p ps)
  define s1 where "s1 = snd (alloc p st)"
  obtain as1 where r: "PdfReader ps s1 = (as1, st')" and as: "as = next_addr st # as1"
    using Cons.prems by (auto simp: s1_def alloc_def split: prod.splits)
  have n1: "next_addr s1 = next_addr st + 1" by (simp add: s1_def alloc_def)
  have h1: "heap s1 = (heap st)(next_addr st := p)" by (simp add: s1_def alloc_def)
  note IH = Cons.IH[OF r]
  have a: "length as = length (p # ps)"
    using IH as by simp
  have a': "\<forall>i < length (p # ps). as ! i = next_addr st + i"
  proof (intro allI impI)
    fix i assume i: "i < length (p # ps)"
    show "as ! i = next_addr st + i"
    proof (cases i)
      case 0
      then show ?thesis using as by simp
    next
      case (Suc j)
      then have "j < length ps" using i by simp
      then have "as1 ! j = next_addr s1 + j" using IH by simp
      then show ?thesis using Suc as n1 by simp
    qed
  qed
  have b: "next_addr st' = next_addr st + length (p # ps)"
    using IH n1 by simp
  have c: "\<forall>b < next_addr st. heap st' b = heap st b"
    using IH n1 h1 by simp
  have d: "\<forall>i < length (p # ps). heap st' (next_addr st + i) = (p # ps) ! i"
  proof (intro allI impI)
    fix i assume i: "i < length (p # ps)"
    show "heap st' (next_addr st + i) = (p # ps) ! i"
    proof (cases i)
      case 0
      then show ?thesis using IH n1 h1 by simp
    next
      case (Suc j)
      then have "j < length ps" using i by simp
      then have "heap st' (next_addr s1 + j) = ps ! j" using IH by simp
      then show ?thesis using Suc n1 by simp
    qed
  qed
  show ?case using a a' b c d by blast
qed

text \<open>
  One pass of the loop. The page it appends lives at an address that was free before
  the pass, holds the template's reference page under this record's overlay, and no
  page object that existed before the pass is changed.
\<close>

lemma compose_row_step:
  assumes tb: "2 \<le> length tb"
  shows "\<exists>a st'. compose_row clones tb pw ph row writer st = Inr (writer @ [a], st') \<and>
           next_addr st \<le> a \<and> a < next_addr st' \<and>
           heap st' a =
             merged (tb ! 1)
               (hd (make_overlay_pdf pw ph (salutation_format row) (greeting_format row))) \<and>
           (\<forall>b < next_addr st. heap st' b = heap st b)"
proof -
  define ov where
    "ov = hd (make_overlay_pdf pw ph (salutation_format row) (greeting_format row))"
  have mk: "make_overlay_pdf pw ph (salutation_format row) (greeting_format row) = [ov]"
    by (simp add: ov_def make_overlay_pdf_page)
  define n where "n = next_addr st"
  obtain ovr s1 where r1: "PdfReader [ov] st = (ovr, s1)" by (cases "PdfReader [ov] st")
  note p1 = PdfReader_props[OF r1]
  have ovr: "length ovr = 1" "ovr ! 0 = n" and n1: "next_addr s1 = n + 1"
    and h1n: "heap s1 n = ov" and f1: "\<forall>b < n. heap s1 b = heap st b"
    using p1 by (simp_all add: n_def)
  obtain fr s2 where r2: "PdfReader tb s1 = (fr, s2)" by (cases "PdfReader tb s1")
  note p2 = PdfReader_props[OF r2]
  have fr: "length fr = length tb" and n2: "next_addr s2 = n + 1 + length tb"
    and f2: "\<forall>b < n + 1. heap s2 b = heap s1 b"
    using p2 n1 by simp_all
  have one: "1 < length tb" using tb by simp
  have "fr ! 1 = next_addr s1 + 1" using p2 one by blast
  then have fr1: "fr ! 1 = n + 2" using n1 by simp
  have "heap s2 (next_addr s1 + 1) = tb ! 1" using p2 one by blast
  then have h2b: "heap s2 (n + 2) = tb ! 1" using n1 by simp
  have pa1: "page_at ovr 0 = Inr n" by (simp add: page_at_def ovr)
  have pa2: "page_at fr 1 = Inr (n + 2)" using one fr1 by (simp add: page_at_def fr)
  have h2n: "heap s2 n = ov" using f2 h1n by simp
  have f02: "\<forall>b < n. heap s2 b = heap st b" using f1 f2 by simp
  show ?thesis
  proof (cases clones)
    case True
    define s4 where
      "s4 = merge_page (n + 1 + length tb) n (snd (alloc (heap s2 (n + 2)) s2))"
    have res: "compose_row clones tb pw ph row writer st = Inr (writer @ [n + 1 + length tb], s4)"
      using True pa1 pa2
      by (simp add: compose_row_def mk r1 r2 add_page_def alloc_def n2 s4_def Let_def
            del: PdfReader.simps)
    have "next_addr s4 = n + 2 + length tb"
      by (simp add: s4_def merge_page_def alloc_def n2)
    moreover have "heap s4 (n + 1 + length tb) = merged (tb ! 1) ov"
      using h2b h2n by (simp add: s4_def merge_page_def alloc_def n2)
    moreover have "\<forall>b < n. heap s4 b = heap st b"
      using f02 by (simp add: s4_def merge_page_def alloc_def n2)
    ultimately show ?thesis
      using res by (simp add: n_def[symmetric] ov_def[symmetric])
  next
    case False
    define s4 where "s4 = merge_page (n + 2) n s2"
    have res: "compose_row clones tb pw ph row writer st = Inr (writer @ [n + 2], s4)"
      using False pa1 pa2
      by (simp add: compose_row_def mk r1 r2 add_page_def s4_def Let_def
            del: PdfReader.simps)
    have "next_addr s4 = n + 1 + length tb"
      by (simp add: s4_def merge_page_def n2)
    moreover have "heap s4 (n + 2) = merged (tb ! 1) ov"
      using h2b h2n by (simp add: s4_def merge_page_def)
    moreover have "\<forall>b < n. heap s4 b = heap st b"
      using f02 by (simp add: s4_def merge_page_def)
    ultimately show ?thesis
      using res tb by (simp add: n_def[symmetric] ov_def[symmetric])
  qed
qed

text \<open>
  The whole loop: it never fails, it appends one page per record in record order,
  each the reference page under that record's overlay alone, and the pages that the
  writer held before are unchanged at the end.
\<close>

lemma pages_loop_result:
  assumes "2 \<le> length tb"
  shows "\<forall>a\<in>set writer. a < next_addr st \<Longrightarrow>
         \<exists>w' st'. pages_loop clones tb pw ph rows writer st = Inr (writer @ w', st') \<and>
           length w' = length rows \<and>
           (\<forall>b < next_addr st. heap st' b = heap st b) \<and>
           map (heap st') w' =
             map (\<lambda>row. merged (tb ! 1)
                    (hd (make_overlay_pdf pw ph (salutation_format row) (greeting_format row))))
               rows"
proof (induction rows arbitrary: writer st)
  case Nil
  then show ?case by simp
next
  case (Cons row rows)
  obtain a s1 where step: "compose_row clones tb pw ph row writer st = Inr (writer @ [a], s1)"
    and fresh: "next_addr st \<le> a" "a < next_addr s1"
    and page: "heap s1 a =
      merged (tb ! 1) (hd (make_overlay_pdf pw ph (salutation_format row) (greeting_format row)))"
    and frame: "\<forall>b < next_addr st. heap s1 b = heap st b"
    using compose_row_step[OF assms, of clones pw ph row writer st] by blast
  have inv: "\<forall>b\<in>set (writer @ [a]). b < next_addr s1"
    using Cons.prems fresh by auto
  obtain w' st' where loop: "pages_loop clones tb pw ph rows (writer @ [a]) s1
        = Inr ((writer @ [a]) @ w', st')"
    and len: "length w' = length rows"
    and frame': "\<forall>b < next_addr s1. heap st' b = heap s1 b"
    and pages: "map (heap st') w' =
       map (\<lambda>row. merged (tb ! 1)
              (hd (make_overlay_pdf pw ph (salutation_format row) (greeting_format row)))) rows"
    using Cons.IH[OF inv] by blast
  have "pages_loop clones tb pw ph (row # rows) writer st = Inr (writer @ (a # w'), st')"
    using step loop by simp
  moreover have "length (a # w') = length (row # rows)" using len by simp
  moreover have "\<forall>b < next_addr st. heap st' b = heap st b"
    using frame frame' fresh by auto
  moreover have "map (heap st') (a # w') =
       map (\<lambda>row. merged (tb ! 1)
              (hd (make_overlay_pdf pw ph (salutation_format row) (greeting_format row))))
         (row # rows)"
    using pages page frame' fresh by simp
  ultimately show ?case by blast
qed

lemma generate_pdf_result:
  assumes "template_file e = Some tb" and "font_file e" and "2 \<le> length tb"
    and "read_rows_from_docx doc = Inr rows"
  shows "generate_pdf clones isalnum e docx_path doc =
           Inr (output_filename_from_docx isalnum (wall_clock e) docx_path,
                tb ! 0 # map (page_for tb) rows)"
proof -
  obtain r0 s0 where r: "PdfReader tb empty_state = (r0, s0)"
    by (cases "PdfReader tb empty_state")
  note p = PdfReader_props[OF r]
  have n0: "next_addr empty_state = 0" by (simp add: empty_state_def)
  have r0: "length r0 = length tb" "\<forall>i < length tb. r0 ! i = i"
    and ns0: "next_addr s0 = length tb"
    and h0: "\<forall>i < length tb. heap s0 i = tb ! i"
    using p n0 by simp_all
  have len: "\<not> length r0 < 2" using assms(3) r0 by simp
  have pos: "0 < length tb" "1 < length tb" using assms(3) by auto
  have i0: "r0 ! 0 = 0" using r0(2)[rule_format, OF pos(1)] by simp
  have i1: "r0 ! 1 = 1" using r0(2)[rule_format, OF pos(2)] by simp
  have hp: "heap s0 0 = tb ! 0" "heap s0 1 = tb ! 1"
    using h0[rule_format, OF pos(1)] h0[rule_format, OF pos(2)] by simp_all
  obtain w1 np s1 where ap: "add_page clones [] 0 s0 = (w1, np, s1)"
    by (cases "add_page clones [] 0 s0")
  have w1: "w1 = [np]" and np: "np < next_addr s1" and hnp: "heap s1 np = tb ! 0"
    using ap ns0 hp assms(3) by (auto simp: add_page_def alloc_def split: if_splits)
  have inv: "\<forall>a\<in>set w1. a < next_addr s1" using w1 np by simp
  obtain w' st' where loop:
      "pages_loop clones tb (width (tb ! 1)) (height (tb ! 1)) rows w1 s1 = Inr (w1 @ w', st')"
    and frame: "\<forall>b < next_addr s1. heap st' b = heap s1 b"
    and pages: "map (heap st') w' = map (page_for tb) rows"
    using pages_loop_result[OF assms(3) inv, of clones "width (tb ! 1)" "height (tb ! 1)" rows]
    by (auto simp: page_for_def)
  have out: "map (heap st') (w1 @ w') = tb ! 0 # map (page_for tb) rows"
    using w1 np frame hnp pages by simp
  show ?thesis
    using assms(1,2,4) len out i0 i1 hp ap loop
    by (simp add: generate_pdf_def r Let_def del: PdfReader.simps)
qed


text \<open>
  Claim C1. Let the input document pass validation with the records \<open>rows\<close>, and let
  the template file and the font file exist, the template having at least two pages.
  Then \<open>generate_pdf\<close> succeeds, and the document it writes is the template's page 0,
  unchanged, followed by one page per record in the order of the records; the records
  are those of the fully populated data rows in row order, so the document has 1 + N
  pages, N being the number of fully populated data rows.
\<close>

theorem output_is_cover_then_one_page_per_row:
  assumes "read_rows_from_docx doc = Inr rows"
    and "template_file e = Some tb" and "font_file e" and "2 \<le> length tb"
  shows
    "generate_pdf clones isalnum e docx_path doc =
       Inr (output_filename_from_docx isalnum (wall_clock e) docx_path,
            tb ! 0 # map (page_for tb) rows) \<and>
     rows = map row_record (filter populated_row (data_rows doc)) \<and>
     length (tb ! 0 # map (page_for tb) rows)
       = 1 + length (filter populated_row (data_rows doc))"
proof -
  have "rows = map row_record (filter populated_row (data_rows doc))"
    using read_rows_from_docx_Inr[OF assms(1)] by simp
  moreover from this
  have "length (tb ! 0 # map (page_for tb) rows)
          = 1 + length (filter populated_row (data_rows doc))"
    by simp
  ultimately show ?thesis
    using generate_pdf_result[OF assms(2,3,4,1)] by blast
qed

theorem output_is_cover_then_one_page_per_row_witness:
  "read_rows_from_docx sample_doc =
     Inr [\<lparr>name = [65], greeting = [66], dear = [67]\<rparr>,
          \<lparr>name = [68], greeting = [69], dear = [70]\<rparr>] \<and>
   generate_pdf True ascii_alnum sample_env [97] sample_doc =
     Inr (output_filename_from_docx ascii_alnum clock_at_10_utc [97],
          [\<lparr>width = 200, height = 400, contents = [Opaque 0]\<rparr>,
           page_for sample_template \<lparr>name = [65], greeting = [66], dear = [67]\<rparr>,
           page_for sample_template \<lparr>name = [68], greeting = [69], dear = [70]\<rparr>]) \<and>
   length (filter populated_row (data_rows sample_doc)) = 2"
proof -
  have rows: "read_rows_from_docx sample_doc =
     Inr [\<lparr>name = [65], greeting = [66], dear = [67]\<rparr>,
          \<lparr>name = [68], greeting = [69], dear = [70]\<rparr>]"
    by (simp add: sample_doc_def read_rows_from_docx_def DOCX_TABLE_INDEX_def
          HAS_HEADER_ROW_def SKIP_EMPTY_ROWS_def plain_row_def plain_cell_def
          tcs_from_row_xml_def text_from_tc_def norm_str_def strip_def lstrip_def rstrip_def
          replace_nbsp_def isspace_def)
  show ?thesis
    using rows
      output_is_cover_then_one_page_per_row[OF rows, of sample_env sample_template True
        ascii_alnum "[97]"]
    by (simp add: sample_env_def sample_template_def)
qed

text \<open>
  Claim C2. Let the writer hold only allocated pages. One pass of the loop for a
  record appends exactly one page; its address was not allocated before the pass, so it
  is shared with no page of the writer, nor with any earlier decoding of the template;
  it holds page 1 of the stored template under this record's overlay alone. No page
  object allocated before the pass is changed: the cover page and the pages of all
  earlier records read as before. This stays so when the later records are processed,
  which do not change this record's page either.
\<close>

theorem merge_changes_only_the_new_page:
  assumes "2 \<le> length tb" and "\<forall>a\<in>set writer. a < next_addr st"
  shows
    "\<exists>a st'.
       compose_row clones tb pw ph row writer st = Inr (writer @ [a], st') \<and>
       next_addr st \<le> a \<and> a \<notin> set writer \<and>
       heap st' a =
         merged (tb ! 1)
           (hd (make_overlay_pdf pw ph (salutation_format row) (greeting_format row))) \<and>
       (\<forall>b < next_addr st. heap st' b = heap st b) \<and>
       map (heap st') writer = map (heap st) writer \<and>
       (\<exists>w'' st''.
          pages_loop clones tb pw ph (row # later) writer st = Inr (writer @ a # w'', st'') \<and>
          map (heap st'') writer = map (heap st) writer \<and>
          heap st'' a = heap st' a)"
proof -
  obtain a s1 where step: "compose_row clones tb pw ph row writer st = Inr (writer @ [a], s1)"
    and fresh: "next_addr st \<le> a" "a < next_addr s1"
    and page: "heap s1 a =
      merged (tb ! 1) (hd (make_overlay_pdf pw ph (salutation_format row) (greeting_format row)))"
    and frame: "\<forall>b < next_addr st. heap s1 b = heap st b"
    using compose_row_step[OF assms(1), of clones pw ph row writer st] by blast
  have notin: "a \<notin> set writer" using assms(2) fresh(1) by auto
  have same: "map (heap s1) writer = map (heap st) writer"
    using assms(2) frame by simp
  have inv: "\<forall>b\<in>set (writer @ [a]). b < next_addr s1"
    using assms(2) fresh by auto
  obtain w' s2 where loop: "pages_loop clones tb pw ph later (writer @ [a]) s1
        = Inr ((writer @ [a]) @ w', s2)"
    and frame': "\<forall>b < next_addr s1. heap s2 b = heap s1 b"
    using pages_loop_result[OF assms(1) inv, of clones pw ph later] by blast
  have l1: "pages_loop clones tb pw ph (row # later) writer st = Inr (writer @ a # w', s2)"
    using step loop by simp
  have l2: "map (heap s2) writer = map (heap st) writer"
    using assms(2) frame frame' fresh by auto
  have l3: "heap s2 a = heap s1 a" using frame' fresh(2) by simp
  show ?thesis
    using step fresh(1) notin page frame same l1 l2 l3 by blast
qed

theorem merge_changes_only_the_new_page_witness:
  "2 \<le> length sample_template \<and>
   next_addr (snd (PdfReader sample_template empty_state)) = 2 \<and>
   (\<exists>a st'.
      compose_row False sample_template 200 400 \<lparr>name = [65], greeting = [66], dear = [67]\<rparr>
        [0] (snd (PdfReader sample_template empty_state)) = Inr ([0, a], st') \<and>
      2 \<le> a \<and> heap st' 0 = \<lparr>width = 200, height = 400, contents = [Opaque 0]\<rparr>)"
proof -
  have len: "2 \<le> length sample_template" by (simp add: sample_template_def)
  have st: "next_addr (snd (PdfReader sample_template empty_state)) = 2"
    "heap (snd (PdfReader sample_template empty_state)) 0
       = \<lparr>width = 200, height = 400, contents = [Opaque 0]\<rparr>"
    by (simp_all add: sample_template_def empty_state_def alloc_def)
  have inv: "\<forall>a\<in>set [0]. a < next_addr (snd (PdfReader sample_template empty_state))"
    by (simp add: st)
  from merge_changes_only_the_new_page[OF len inv, of False 200 400
      "\<lparr>name = [65], greeting = [66], dear = [67]\<rparr>" "[]"]
  show ?thesis using len st by auto
qed

end
